theory Spec2Isabelle
  imports Complex_Main "HOL-Library.Word"
begin

unbundle bit_operations_syntax

section \<open>Go values used by vfrmap/main.go\<close>

subsection \<open>float64 as its IEEE 754 bit pattern\<close>

text \<open>
  The fields of \<open>Report\<close> are Go \<open>float64\<close> values read straight out of the buffer
  that SimConnect returns (\<open>report = (*Report)(ppData)\<close>), so every 64-bit pattern can
  occur. A \<open>float64\<close> is modelled as its bit pattern; sign, biased exponent and fraction
  are taken apart the way \<open>strconv\<close> does it (shift and mask).
\<close>

type_synonym float64 = "64 word"
type_synonym DWORD = "32 word"

definition f64_neg :: "float64 \<Rightarrow> bool" where
  "f64_neg bits = (drop_bit 63 bits \<noteq> 0)"

definition f64_exp :: "float64 \<Rightarrow> nat" where
  "f64_exp bits = unat (drop_bit 52 bits AND 0x7FF)"

definition f64_mant :: "float64 \<Rightarrow> nat" where
  "f64_mant bits = unat (bits AND 0xFFFFFFFFFFFFF)"

text \<open>
  \<open>Finite neg m e\<close> stands for the number \<open>(-1)^neg * m * 2^e\<close>: a subnormal has
  exponent field 0 and no implicit bit, a normal number has the implicit bit \<open>2^52\<close>.
\<close>

datatype f64_class = NaN | Inf bool | Finite bool nat int

definition f64_decode :: "float64 \<Rightarrow> f64_class" where
  "f64_decode bits =
     (if f64_exp bits = 2047 then (if f64_mant bits \<noteq> 0 then NaN else Inf (f64_neg bits))
      else if f64_exp bits = 0 then Finite (f64_neg bits) (f64_mant bits) (- 1074)
      else Finite (f64_neg bits) (f64_mant bits + 2 ^ 52) (int (f64_exp bits) - 1075))"

definition f64_finite :: "float64 \<Rightarrow> bool" where
  "f64_finite bits = (f64_exp bits \<noteq> 2047)"

definition f64_is_nan :: "float64 \<Rightarrow> bool" where
  "f64_is_nan bits = (f64_exp bits = 2047 \<and> f64_mant bits \<noteq> 0)"

text \<open>The magnitude and the value of a finite \<open>float64\<close>, as exact rationals.\<close>

definition pow2 :: "int \<Rightarrow> rat" where
  "pow2 e = (if 0 \<le> e then 2 ^ nat e else 1 / 2 ^ nat (- e))"

definition f64_abs :: "float64 \<Rightarrow> rat" where
  "f64_abs bits =
     (case f64_decode bits of Finite neg m e \<Rightarrow> of_nat m * pow2 e | _ \<Rightarrow> 0)"

definition f64_value :: "float64 \<Rightarrow> rat" where
  "f64_value bits = (if f64_neg bits then - f64_abs bits else f64_abs bits)"

subsection \<open>\<open>fmt.Sprintf("%.Nf", x)\<close>\<close>

text \<open>
  For the verb \<open>f\<close> with a precision, \<open>strconv\<close> converts the exact binary value to
  decimal and rounds it at the requested digit, a tie going to the even digit. The sign
  is printed whenever the sign bit is set (so \<open>-0.2\<close> prints as \<open>-0\<close> under
  \<open>%.0f\<close>); NaN prints as \<open>NaN\<close>, the infinities as \<open>+Inf\<close> and \<open>-Inf\<close>.
\<close>

definition round_half_even_div :: "nat \<Rightarrow> nat \<Rightarrow> nat" where
  "round_half_even_div n d =
     (let q = n div d; r = n mod d in
      if 2 * r < d then q
      else if d < 2 * r then q + 1
      else if even q then q else q + 1)"

text \<open>\<open>scaled_digits prec m e\<close> is \<open>m * 2^e * 10^prec\<close> rounded to a whole number.\<close>

definition scaled_digits :: "nat \<Rightarrow> nat \<Rightarrow> int \<Rightarrow> nat" where
  "scaled_digits prec m e =
     (if 0 \<le> e then m * 10 ^ prec * 2 ^ nat e
      else round_half_even_div (m * 10 ^ prec) (2 ^ nat (- e)))"

text \<open>The decimal digit \<open>d\<close> as a character; every caller passes \<open>d < 10\<close>.\<close>

definition digit_char :: "nat \<Rightarrow> char" where
  "digit_char d = ''0123456789'' ! (d mod 10)"

fun int_digits :: "nat \<Rightarrow> string \<Rightarrow> string" where
  "int_digits n acc =
     (if n < 10 then digit_char n # acc
      else int_digits (n div 10) (digit_char (n mod 10) # acc))"

declare int_digits.simps [simp del]

fun frac_digits :: "nat \<Rightarrow> nat \<Rightarrow> string" where
  "frac_digits 0 f = []"
| "frac_digits (Suc p) f = frac_digits p (f div 10) @ [digit_char (f mod 10)]"

definition Sprintf_f :: "nat \<Rightarrow> float64 \<Rightarrow> string" where
  "Sprintf_f prec x =
     (case f64_decode x of
        NaN \<Rightarrow> ''NaN''
      | Inf neg \<Rightarrow> (if neg then ''-Inf'' else ''+Inf'')
      | Finite neg m e \<Rightarrow>
          (let n = scaled_digits prec m e in
           (if neg then ''-'' else []) @
           int_digits (n div 10 ^ prec) [] @
           (if 0 < prec then CHR ''.'' # frac_digits prec (n mod 10 ^ prec) else [])))"

subsection \<open>\<open>int(x)\<close> for a float64 \<open>x\<close>\<close>

text \<open>
  Go's conversion discards the fraction (truncation towards zero). \<open>int\<close> has 64 bits
  on the build target (\<open>GOARCH=amd64\<close>, line 5 of main.go). Where the truncated value
  does not fit, and for NaN, the language leaves the result to the implementation; on
  amd64 the conversion instruction yields the smallest 64-bit integer.
\<close>

definition int_min :: int where
  "int_min = - (2 ^ 63)"

definition float64_to_int :: "float64 \<Rightarrow> int" where
  "float64_to_int x =
     (case f64_decode x of
        Finite neg m e \<Rightarrow>
          (let t = (if 0 \<le> e then int m * 2 ^ nat e else int (m div 2 ^ nat (- e)));
               v = (if neg then - t else t)
           in if int_min \<le> v \<and> v < 2 ^ 63 then v else int_min)
      | _ \<Rightarrow> int_min)"

subsection \<open>The values of a \<open>map[string]interface{}\<close>\<close>

datatype go_value = Float64 float64 | GoInt int | GoString string

type_synonym message = "string \<rightharpoonup> go_value"

section \<open>The telemetry record and its projection\<close>

text \<open>
  \<open>type Report struct\<close> (main.go, lines 23 to 35). The embedded SimConnect header is
  kept apart, in \<open>recv\<close> below; \<open>Title\<close> is the 256-byte array.
\<close>

record Report =
  Title :: "8 word list"
  Altitude :: float64
  Latitude :: float64
  Longitude :: float64
  Heading :: float64
  Airspeed :: float64
  VerticalSpeed :: float64
  Flaps :: float64
  Trim :: float64
  RudderTrim :: float64

text \<open>The map literal given to \<open>ws.Broadcast\<close> (main.go, lines 143 to 153).\<close>

definition broadcast_message :: "Report \<Rightarrow> message" where
  "broadcast_message report = Map.empty
     (''latitude'' \<mapsto> Float64 (Latitude report),
      ''longitude'' \<mapsto> Float64 (Longitude report),
      ''altitude'' \<mapsto> GoString (Sprintf_f 0 (Altitude report)),
      ''heading'' \<mapsto> GoInt (float64_to_int (Heading report)),
      ''airspeed'' \<mapsto> GoString (Sprintf_f 0 (Airspeed report)),
      ''vertical_speed'' \<mapsto> GoString (Sprintf_f 0 (VerticalSpeed report)),
      ''flaps'' \<mapsto> GoString (Sprintf_f 0 (Flaps report)),
      ''trim'' \<mapsto> GoString (Sprintf_f 1 (Trim report)),
      ''rudder_trim'' \<mapsto> GoString (Sprintf_f 1 (RudderTrim report)))"

text \<open>
  The record of the example scenario: each field is the \<open>float64\<close> nearest to the decimal
  number of the scenario (47.449, -122.309, 1000.4, 183.7, 120.2, -50.0, 0.0, 2.3, 0.0).
\<close>

definition example_report :: Report where
  "example_report =
     \<lparr> Title = replicate 256 0,
       Altitude = 0x408F433333333333,
       Latitude = 0x4047B978D4FDF3B6,
       Longitude = 0xC05E93C6A7EF9DB2,
       Heading = 0x4066F66666666666,
       Airspeed = 0x405E0CCCCCCCCCCD,
       VerticalSpeed = 0xC049000000000000,
       Flaps = 0,
       Trim = 0x4002666666666666,
       RudderTrim = 0 \<rparr>"

section \<open>What main.go takes from package simconnect\<close>

text \<open>
  The constants and the connection object belong to package \<open>simconnect\<close>; main.go
  only names them, so they are parameters here. \<open>DefineMap\<close> is the connection's map
  from struct names to definition identifiers and \<open>GetDefineID\<close> is what
  \<open>s.GetDefineID\<close> answers for a \<open>*Report\<close>.
\<close>

record env =
  E_FAIL :: DWORD
  RECV_ID_EXCEPTION :: DWORD
  RECV_ID_OPEN :: DWORD
  RECV_ID_EVENT :: DWORD
  RECV_ID_SIMOBJECT_DATA_BYTYPE :: DWORD
  SIMOBJECT_TYPE_USER :: DWORD
  DefineMap :: "string \<rightharpoonup> DWORD"
  GetDefineID :: DWORD
  verbose :: bool

text \<open>Indexing a Go map with an absent key gives the zero value.\<close>

definition DefineMap_at :: "env \<Rightarrow> string \<Rightarrow> DWORD" where
  "DefineMap_at e k = (case DefineMap e k of None \<Rightarrow> 0 | Some v \<Rightarrow> v)"

text \<open>
  The buffer behind \<open>ppData\<close>, as the views main.go casts it to: \<open>Recv\<close> (the
  discriminator \<open>ID\<close>), \<open>RecvOpen\<close>, \<open>RecvEvent\<close>, \<open>RecvSimobjectDataByType\<close>
  and \<open>Report\<close>. Only the fields that main.go reads are kept.
\<close>

record recv =
  ID :: DWORD
  ApplicationName :: string
  EventID :: DWORD
  RequestID :: DWORD
  as_Report :: Report

text \<open>What one call of \<open>s.GetNextDispatch()\<close> returns; a nil \<open>error\<close> is \<open>None\<close>.\<close>

record dispatch =
  ppData :: "recv option"
  r1 :: int
  dispatch_err :: "string option"

section \<open>Effects and outcomes\<close>

datatype log_line =
    LogException recv
  | LogOpen string
  | LogEvent
  | LogUnknownEvent DWORD
  | LogReport Report
  | LogUnknownID DWORD
  | LogExiting

datatype effect =
    GetNextDispatch
  | Print log_line
  | Broadcast message
  | RequestDataOnSimObjectType DWORD DWORD DWORD DWORD
  | Sleep int
  | Close

datatype panic_value =
    GetNextDispatchError int "string option"
  | NilPointerDereference
  | ErrorValue string

datatype outcome = Running | Panicked panic_value | Exited int

text \<open>
  The Go runtime ends a process whose goroutine panics without recovery with status 2,
  after writing the panic value to standard error; \<open>os.Exit\<close> writes nothing.
\<close>

fun exit_status :: "outcome \<Rightarrow> int option" where
  "exit_status Running = None"
| "exit_status (Panicked v) = Some 2"
| "exit_status (Exited n) = Some n"

fun reported_error :: "outcome \<Rightarrow> panic_value option" where
  "reported_error (Panicked v) = Some v"
| "reported_error out = None"

text \<open>\<open>time.Millisecond\<close>, in nanoseconds as \<open>time.Duration\<close> counts.\<close>

definition Millisecond :: int where
  "Millisecond = 1000000"

text \<open>The variables of \<open>main\<close> that the goroutines assign to.\<close>

record main_vars =
  report :: Report
  err :: "string option"

section \<open>The acquisition loop (main.go, lines 94 to 164)\<close>

text \<open>\<open>Report.RequestData\<close> (lines 37 to 41).\<close>

definition RequestData :: "env \<Rightarrow> effect list" where
  "RequestData e =
     (let defineID = GetDefineID e; requestID = defineID
      in [RequestDataOnSimObjectType requestID defineID 0 (SIMOBJECT_TYPE_USER e)])"

text \<open>The \<open>switch recvInfo.ID\<close> (lines 110 to 160), first matching case first.\<close>

definition handle_recv :: "env \<Rightarrow> main_vars \<Rightarrow> recv \<Rightarrow> effect list \<times> main_vars" where
  "handle_recv e vars buf =
     (if ID buf = RECV_ID_EXCEPTION e then ([Print (LogException buf)], vars)
      else if ID buf = RECV_ID_OPEN e then ([Print (LogOpen (ApplicationName buf))], vars)
      else if ID buf = RECV_ID_EVENT e then
        ([Print LogEvent, Print (LogUnknownEvent (EventID buf))], vars)
      else if ID buf = RECV_ID_SIMOBJECT_DATA_BYTYPE e then
        (if RequestID buf = DefineMap_at e ''Report'' then
           ((if verbose e then [Print (LogReport (as_Report buf))] else []) @
            [Broadcast (broadcast_message (as_Report buf))] @
            RequestData e,
            vars\<lparr>report := as_Report buf\<rparr>)
         else ([], vars))
      else ([Print (LogUnknownID (ID buf))], vars))"

text \<open>
  One pass through the body of the \<open>for\<close>. \<open>uint32(r1)\<close> is \<open>word_of_int\<close>;
  \<open>continue\<close> and \<open>panic\<close> leave before the \<open>time.Sleep\<close> at the end of the body;
  dereferencing a nil \<open>ppData\<close> panics.
\<close>

definition acquisition_iteration ::
    "env \<Rightarrow> main_vars \<Rightarrow> dispatch \<Rightarrow> effect list \<times> main_vars \<times> outcome" where
  "acquisition_iteration e vars d =
     (if r1 d < 0 then
        (if (word_of_int (r1 d) :: DWORD) = E_FAIL e then ([GetNextDispatch], vars, Running)
         else ([GetNextDispatch], vars,
               Panicked (GetNextDispatchError (r1 d) (dispatch_err d))))
      else
        (case ppData d of
           None \<Rightarrow> ([GetNextDispatch], vars, Panicked NilPointerDereference)
         | Some buf \<Rightarrow>
             (case handle_recv e vars buf of
                (effs, vars') \<Rightarrow>
                  (GetNextDispatch # effs @ [Sleep (100 * Millisecond)], vars', Running))))"

text \<open>
  The \<open>for\<close> itself, run against the answers of the telemetry source: it goes on for as
  long as there are answers and stops early only by a panic. With the answers used up
  the loop is waiting in \<open>GetNextDispatch\<close>, still \<open>Running\<close>.
\<close>

fun acquisition_loop ::
    "env \<Rightarrow> main_vars \<Rightarrow> dispatch list \<Rightarrow> effect list \<times> main_vars \<times> outcome" where
  "acquisition_loop e vars [] = ([], vars, Running)"
| "acquisition_loop e vars (d # ds) =
     (case acquisition_iteration e vars d of
        (effs, vars', out) \<Rightarrow>
          if out = Running then
            (case acquisition_loop e vars' ds of
               (effs', vars'', out') \<Rightarrow> (effs @ effs', vars'', out'))
          else (effs, vars', out))"

section \<open>The coordinator loop (main.go, lines 199 to 216)\<close>

datatype signal = Interrupt | SIGTERM

text \<open>
  What the \<open>select\<close> can receive: a signal from \<open>exitSignal\<close>, a connection handle from
  \<open>ws.NewConnection\<close>, or a client message (connection handle and bytes) from
  \<open>ws.ReceiveMessages\<close>.
\<close>

datatype event =
    ExitSignal signal
  | NewConnection nat
  | ReceiveMessages nat "8 word list"

text \<open>One pass through the \<open>select\<close>; \<open>close_result\<close> is what \<open>s.Close()\<close> returns.\<close>

fun coordinator_iteration ::
    "main_vars \<Rightarrow> string option \<Rightarrow> event \<Rightarrow> effect list \<times> main_vars \<times> outcome" where
  "coordinator_iteration vars close_result (ExitSignal sg) =
     ([Print LogExiting, Close], vars\<lparr>err := close_result\<rparr>,
      (case close_result of Some e \<Rightarrow> Panicked (ErrorValue e) | None \<Rightarrow> Exited 0))"
| "coordinator_iteration vars close_result (NewConnection c) = ([], vars, Running)"
| "coordinator_iteration vars close_result (ReceiveMessages c m) = ([], vars, Running)"

text \<open>
  The \<open>for\<close> around the \<open>select\<close>, run against the events that arrive; it ends
  with the first event that ends the process.
\<close>

fun coordinator_loop ::
    "main_vars \<Rightarrow> string option \<Rightarrow> event list \<Rightarrow> effect list \<times> main_vars \<times> outcome" where
  "coordinator_loop vars close_result [] = ([], vars, Running)"
| "coordinator_loop vars close_result (ev # evs) =
     (case coordinator_iteration vars close_result ev of
        (effs, vars', out) \<Rightarrow>
          if out = Running then
            (case coordinator_loop vars' close_result evs of
               (effs', vars'', out') \<Rightarrow> (effs @ effs', vars'', out'))
          else (effs, vars', out))"

section \<open>Reading a trace\<close>

fun is_broadcast :: "effect \<Rightarrow> bool" where
  "is_broadcast (Broadcast m) = True"
| "is_broadcast eff = False"

fun is_request :: "effect \<Rightarrow> bool" where
  "is_request (RequestDataOnSimObjectType a b c d) = True"
| "is_request eff = False"

fun is_print :: "effect \<Rightarrow> bool" where
  "is_print (Print l) = True"
| "is_print eff = False"

fun is_sleep :: "effect \<Rightarrow> bool" where
  "is_sleep (Sleep n) = True"
| "is_sleep eff = False"

fun broadcasts :: "effect list \<Rightarrow> message list" where
  "broadcasts [] = []"
| "broadcasts (Broadcast m # effs) = m # broadcasts effs"
| "broadcasts (eff # effs) = broadcasts effs"

text \<open>
  \<open>request_after_broadcast pending effs\<close>: in \<open>effs\<close> every data request comes after a
  broadcast of its own, \<open>pending\<close> telling whether a broadcast is still unanswered.
\<close>

fun request_after_broadcast :: "bool \<Rightarrow> effect list \<Rightarrow> bool" where
  "request_after_broadcast pending [] = True"
| "request_after_broadcast pending (Broadcast m # effs) = request_after_broadcast True effs"
| "request_after_broadcast pending (RequestDataOnSimObjectType a b c d # effs) =
     (pending \<and> request_after_broadcast False effs)"
| "request_after_broadcast pending (eff # effs) = request_after_broadcast pending effs"

text \<open>The case constants of a Go \<open>switch\<close> are pairwise different.\<close>

definition distinct_recv_ids :: "env \<Rightarrow> bool" where
  "distinct_recv_ids e =
     distinct [RECV_ID_EXCEPTION e, RECV_ID_OPEN e, RECV_ID_EVENT e,
               RECV_ID_SIMOBJECT_DATA_BYTYPE e]"

text \<open>
  An environment for concrete runs. Any pairwise different identifiers would do; these
  are the ones of the SimConnect SDK headers, with the \<open>Report\<close> definition registered
  as number 0.
\<close>

definition sdk_env :: env where
  "sdk_env =
     \<lparr> E_FAIL = 0x80004005,
       RECV_ID_EXCEPTION = 1,
       RECV_ID_OPEN = 2,
       RECV_ID_EVENT = 4,
       RECV_ID_SIMOBJECT_DATA_BYTYPE = 9,
       SIMOBJECT_TYPE_USER = 0,
       DefineMap = Map.empty(''Report'' \<mapsto> 0),
       GetDefineID = 0,
       verbose = False \<rparr>"

definition zero_report :: Report where
  "zero_report =
     \<lparr> Title = replicate 256 0, Altitude = 0, Latitude = 0, Longitude = 0, Heading = 0,
       Airspeed = 0, VerticalSpeed = 0, Flaps = 0, Trim = 0, RudderTrim = 0 \<rparr>"

text \<open>\<open>report := &Report{}\<close> and a nil \<open>err\<close>, as \<open>main\<close> has them when the loops start.\<close>

definition initial_vars :: main_vars where
  "initial_vars = \<lparr> report = zero_report, err = None \<rparr>"

text \<open>A successful poll that hands over a buffer with the given kind, request and record.\<close>

definition received :: "DWORD \<Rightarrow> DWORD \<Rightarrow> Report \<Rightarrow> dispatch" where
  "received kind request rep =
     \<lparr> ppData = Some \<lparr> ID = kind, ApplicationName = [], EventID = 0,
                         RequestID = request, as_Report = rep \<rparr>,
       r1 = 0, dispatch_err = None \<rparr>"

text \<open>A poll that fails with the given result code and hands over nothing.\<close>

definition failed :: "int \<Rightarrow> dispatch" where
  "failed code = \<lparr> ppData = None, r1 = code, dispatch_err = Some ''failed'' \<rparr>"

section \<open>The shape of a formatted number\<close>

definition is_digit :: "char \<Rightarrow> bool" where
  "is_digit c = (c \<in> set ''0123456789'')"

definition all_digits :: "string \<Rightarrow> bool" where
  "all_digits s = (s \<noteq> [] \<and> list_all is_digit s)"

fun drop_sign :: "string \<Rightarrow> string" where
  "drop_sign [] = []"
| "drop_sign (c # s) = (if c = CHR ''-'' then s else c # s)"

text \<open>
  \<open>decimal_places p s\<close>: after an optional minus sign, \<open>s\<close> is a run of digits and,
  when \<open>p\<close> is positive, a point and exactly \<open>p\<close> more digits.
\<close>

definition decimal_places :: "nat \<Rightarrow> string \<Rightarrow> bool" where
  "decimal_places p s =
     (let t = drop_sign s;
          whole = take (length t - p) t;
          fraction = drop (length t - p) t
      in if p = 0 then all_digits t
         else length fraction = p \<and> list_all is_digit fraction \<and>
              whole \<noteq> [] \<and> last whole = CHR ''.'' \<and> all_digits (butlast whole))"

fun string_with :: "(string \<Rightarrow> bool) \<Rightarrow> go_value option \<Rightarrow> bool" where
  "string_with P (Some (GoString s)) = P s"
| "string_with P v = False"

text \<open>Rounding a rational towards zero, and the range of a 64-bit \<open>int\<close>.\<close>

definition trunc_to_zero :: "rat \<Rightarrow> int" where
  "trunc_to_zero q = (if 0 \<le> q then \<lfloor>q\<rfloor> else \<lceil>q\<rceil>)"

definition fits_int :: "int \<Rightarrow> bool" where
  "fits_int n = (int_min \<le> n \<and> n < 2 ^ 63)"

definition message_keys :: "string list" where
  "message_keys = [''latitude'', ''longitude'', ''altitude'', ''heading'', ''airspeed'',
     ''vertical_speed'', ''flaps'', ''trim'', ''rudder_trim'']"

text \<open>
  The formatting rule in the words of the specification: nine keys, latitude and
  longitude as they are, four strings without decimals, two strings with one decimal,
  the heading truncated.
\<close>

definition formatted_as_specified :: "Report \<Rightarrow> message \<Rightarrow> bool" where
  "formatted_as_specified r m =
     (dom m = set message_keys \<and>
      m ''latitude'' = Some (Float64 (Latitude r)) \<and>
      m ''longitude'' = Some (Float64 (Longitude r)) \<and>
      string_with (decimal_places 0) (m ''altitude'') \<and>
      string_with (decimal_places 0) (m ''airspeed'') \<and>
      string_with (decimal_places 0) (m ''vertical_speed'') \<and>
      string_with (decimal_places 0) (m ''flaps'') \<and>
      string_with (decimal_places 1) (m ''trim'') \<and>
      string_with (decimal_places 1) (m ''rudder_trim'') \<and>
      m ''heading'' = Some (GoInt (trunc_to_zero (f64_value (Heading r)))))"

text \<open>
  Reading a formatted number back: whether it carries a minus sign, its digits before the
  point, and the whole number that its digits spell when the point is left out.
\<close>

definition digit_value :: "char \<Rightarrow> nat" where
  "digit_value c = length (takeWhile (\<lambda>d. d \<noteq> c) ''0123456789'')"

definition read_digits :: "string \<Rightarrow> nat" where
  "read_digits s = foldl (\<lambda>a c. 10 * a + digit_value c) 0 (filter is_digit s)"

definition has_sign :: "string \<Rightarrow> bool" where
  "has_sign s = (case s of [] \<Rightarrow> False | c # t \<Rightarrow> c = CHR ''-'')"

definition whole_part :: "nat \<Rightarrow> string \<Rightarrow> string" where
  "whole_part p s =
     (let t = drop_sign s in if p = 0 then t else butlast (take (length t - p) t))"

definition no_leading_zero :: "string \<Rightarrow> bool" where
  "no_leading_zero w = (case w of [] \<Rightarrow> False | c # t \<Rightarrow> t = [] \<or> c \<noteq> CHR ''0'')"

text \<open>Rounding a rational to the nearest whole number, a tie going to the even one.\<close>

definition round_half_even :: "rat \<Rightarrow> int" where
  "round_half_even q =
     (let f = \<lfloor>q\<rfloor>; d = q - of_int f in
      if d < 1 / 2 then f
      else if 1 / 2 < d then f + 1
      else if even f then f else f + 1)"

text \<open>
  \<open>denotes p neg q s\<close>: the string \<open>s\<close> is the magnitude \<open>q\<close> written with \<open>p\<close>
  decimals. It has the shape of such a number, carries a minus sign exactly when \<open>neg\<close>
  holds, has no superfluous leading zero, and its digits spell \<open>q * 10^p\<close> rounded to the
  nearest whole number.
\<close>

definition denotes :: "nat \<Rightarrow> bool \<Rightarrow> rat \<Rightarrow> string \<Rightarrow> bool" where
  "denotes p neg q s =
     (decimal_places p s \<and> has_sign s = neg \<and> no_leading_zero (whole_part p s) \<and>
      int (read_digits s) = round_half_even (q * 10 ^ p))"

text \<open>
  What the code does with one formatted field: a finite field is written out with its
  sign and its magnitude rounded to \<open>p\<close> decimals; a NaN is named "NaN" and an infinity
  "+Inf" or "-Inf" by its sign.
\<close>

definition rendered :: "nat \<Rightarrow> float64 \<Rightarrow> go_value option \<Rightarrow> bool" where
  "rendered p x v =
     (if f64_finite x then string_with (denotes p (f64_neg x) (f64_abs x)) v
      else if f64_is_nan x then v = Some (GoString ''NaN'')
      else if f64_neg x then v = Some (GoString ''-Inf'')
      else v = Some (GoString ''+Inf''))"

text \<open>
  What the code does with the heading: the field truncated towards zero when it is finite
  and the truncation fits into an \<open>int\<close>, the smallest \<open>int\<close> otherwise.
\<close>

definition converted :: "float64 \<Rightarrow> int" where
  "converted x =
     (if f64_finite x \<and> fits_int (trunc_to_zero (f64_value x))
      then trunc_to_zero (f64_value x) else int_min)"

text \<open>A record whose elevator trim is a quiet NaN.\<close>

definition nan_trim_report :: Report where
  "nan_trim_report = zero_report\<lparr>Trim := 0x7FF8000000000000\<rparr>"

section \<open>Two runs on the same telemetry\<close>




section \<open>Evaluation and auxiliary facts\<close>

lemmas f64_eval = Sprintf_f_def f64_decode_def f64_exp_def f64_mant_def f64_neg_def
  scaled_digits_def round_half_even_div_def int_digits.simps digit_char_def
  float64_to_int_def int_min_def Let_def

lemma round_half_even_div_zero: "0 < d \<Longrightarrow> round_half_even_div 0 d = 0"
  by (simp add: round_half_even_div_def)

lemma Sprintf_f_zero: "Sprintf_f 0 0 = ''0''" "Sprintf_f 1 0 = ''0.0''"
  by (simp_all add: Sprintf_f_def f64_decode_def f64_exp_def f64_mant_def f64_neg_def
      scaled_digits_def round_half_even_div_zero int_digits.simps digit_char_def)

lemma Sprintf_f_NaN: "Sprintf_f p 0x7FF8000000000000 = ''NaN''"
  by (simp add: Sprintf_f_def f64_decode_def f64_exp_def f64_mant_def)

text \<open>The fields of the example record are the doubles nearest to the scenario's decimals.\<close>

lemma example_report_values:
  "\<bar>f64_value (Latitude example_report) - 47449 / 1000\<bar> \<le> pow2 (- 48)"
  "\<bar>f64_value (Longitude example_report) - (- 122309 / 1000)\<bar> \<le> pow2 (- 47)"
  "\<bar>f64_value (Altitude example_report) - 10004 / 10\<bar> \<le> pow2 (- 44)"
  "\<bar>f64_value (Heading example_report) - 1837 / 10\<bar> \<le> pow2 (- 46)"
  "\<bar>f64_value (Airspeed example_report) - 1202 / 10\<bar> \<le> pow2 (- 47)"
  "f64_value (VerticalSpeed example_report) = - 50"
  "f64_value (Flaps example_report) = 0"
  "\<bar>f64_value (Trim example_report) - 23 / 10\<bar> \<le> pow2 (- 52)"
  "f64_value (RudderTrim example_report) = 0"
  by (simp_all add: example_report_def f64_value_def f64_abs_def pow2_def f64_decode_def
      f64_exp_def f64_mant_def f64_neg_def)

subsection \<open>Traces\<close>


lemma handle_recv_no_sleep: "\<not> list_ex is_sleep (fst (handle_recv e vars buf))"
  by (simp add: handle_recv_def RequestData_def Let_def)

lemma iteration_request_after_broadcast:
  "request_after_broadcast False (fst (acquisition_iteration e vars d) @ rest) =
   request_after_broadcast False rest"
  by (simp add: acquisition_iteration_def handle_recv_def RequestData_def Let_def
      split: option.split)

text \<open>Over any run of the loop, each data request follows a broadcast of its own.\<close>

lemma loop_request_after_broadcast:
  "request_after_broadcast False (fst (acquisition_loop e vars ds))"
proof (induction ds arbitrary: vars)
  case Nil
  show ?case by simp
next
  case (Cons d ds)
  obtain effs vars' out where it: "acquisition_iteration e vars d = (effs, vars', out)"
    by (cases "acquisition_iteration e vars d") auto
  have step: "request_after_broadcast False (effs @ rest) = request_after_broadcast False rest"
    for rest
    using iteration_request_after_broadcast [of e vars d rest] by (simp add: it)
  show ?case
  proof (cases "out = Running")
    case True
    obtain effs' vars'' out' where lp: "acquisition_loop e vars' ds = (effs', vars'', out')"
      by (cases "acquisition_loop e vars' ds") auto
    from Cons.IH [of vars'] have "request_after_broadcast False effs'"
      by (simp add: lp)
    then show ?thesis
      by (simp add: it True lp step)
  next
    case False
    from step [of "[]"] show ?thesis
      by (simp add: it False)
  qed
qed

subsection \<open>Digits\<close>

lemma is_digit_digit_char: "is_digit (digit_char d)"
proof -
  have "d mod 10 < length ''0123456789''" by simp
  then have "''0123456789'' ! (d mod 10) \<in> set ''0123456789''" by (rule nth_mem)
  then show ?thesis by (simp only: is_digit_def digit_char_def)
qed

lemma int_digits_are_digits:
  "list_all is_digit acc \<Longrightarrow> list_all is_digit (int_digits n acc)"
proof (induction n acc rule: int_digits.induct)
  case (1 n acc)
  show ?case
  proof (cases "n < 10")
    case True
    with "1.prems" show ?thesis
      by (simp add: int_digits.simps [of n] is_digit_digit_char)
  next
    case False
    with "1.IH" "1.prems" show ?thesis
      by (simp add: int_digits.simps [of n] is_digit_digit_char)
  qed
qed

lemma int_digits_nonempty: "int_digits n acc \<noteq> []"
  by (induction n acc rule: int_digits.induct) (simp add: int_digits.simps)

lemma all_digits_int_digits: "all_digits (int_digits n [])"
  by (simp add: all_digits_def int_digits_nonempty int_digits_are_digits)

lemma frac_digits_length: "length (frac_digits p f) = p"
  by (induction p f rule: frac_digits.induct) simp_all

lemma frac_digits_are_digits: "list_all is_digit (frac_digits p f)"
  by (induction p f rule: frac_digits.induct) (simp_all add: is_digit_digit_char)

lemma drop_sign_signed:
  "all_digits s \<Longrightarrow> drop_sign ((if neg then ''-'' else []) @ s @ t) = s @ t"
  by (cases s) (auto simp: all_digits_def is_digit_def)

lemma decimal_places_split:
  assumes "drop_sign s = ip @ CHR ''.'' # fd" and "all_digits ip"
    and "length fd = p" and "0 < p" and "list_all is_digit fd"
  shows "decimal_places p s"
proof -
  from assms(3) have len: "length (ip @ CHR ''.'' # fd) - p = length ip + 1" by simp
  have tk: "take (length ip + 1) (ip @ CHR ''.'' # fd) = ip @ [CHR ''.'']" by simp
  have dr: "drop (length ip + 1) (ip @ CHR ''.'' # fd) = fd" by simp
  from assms(2-) show ?thesis
    unfolding decimal_places_def assms(1) Let_def len tk dr by simp
qed

lemma decimal_places_shape:
  assumes "all_digits ip" and "length fd = p" and "list_all is_digit fd"
  shows "decimal_places p
           ((if neg then ''-'' else []) @ ip @ (if 0 < p then CHR ''.'' # fd else []))"
proof (cases "p = 0")
  case True
  with assms drop_sign_signed [of ip neg "[]"] show ?thesis
    by (simp add: decimal_places_def)
next
  case False
  from assms(1) have "drop_sign ((if neg then ''-'' else []) @ ip @ CHR ''.'' # fd) =
      ip @ CHR ''.'' # fd"
    by (rule drop_sign_signed)
  then have "decimal_places p ((if neg then ''-'' else []) @ ip @ CHR ''.'' # fd)"
    using assms False by (intro decimal_places_split [of _ ip fd]) simp_all
  with False show ?thesis by simp
qed

subsection \<open>Formatting and converting finite numbers\<close>

lemma f64_decode_finite:
  "f64_finite x \<Longrightarrow> \<exists>m e. f64_decode x = Finite (f64_neg x) m e"
  by (simp add: f64_finite_def f64_decode_def)

lemma Sprintf_f_finite:
  assumes "f64_finite x"
  shows "decimal_places p (Sprintf_f p x)"
proof -
  from assms obtain m e where dec: "f64_decode x = Finite (f64_neg x) m e"
    using f64_decode_finite by blast
  show ?thesis
    unfolding Sprintf_f_def dec f64_class.case Let_def
    by (rule decimal_places_shape)
      (simp_all add: all_digits_int_digits frac_digits_length frac_digits_are_digits)
qed

lemma Sprintf_f_not_finite:
  "\<not> f64_finite x \<Longrightarrow> Sprintf_f p x \<in> {''NaN'', ''+Inf'', ''-Inf''}"
  by (simp add: f64_finite_def Sprintf_f_def f64_decode_def)

lemma floor_scaled:
  "\<lfloor>(of_nat m :: rat) * pow2 e\<rfloor> =
     (if 0 \<le> e then int m * 2 ^ nat e else int (m div 2 ^ nat (- e)))"
proof (cases "0 \<le> e")
  case True
  have "(of_nat m :: rat) * 2 ^ nat e = of_int (int m * 2 ^ nat e)" by simp
  then have "\<lfloor>(of_nat m :: rat) * 2 ^ nat e\<rfloor> = int m * 2 ^ nat e"
    by (simp only: floor_of_int)
  with True show ?thesis by (simp add: pow2_def)
next
  case False
  have "(of_nat m :: rat) * (1 / 2 ^ nat (- e)) = of_nat m / of_nat (2 ^ nat (- e))" by simp
  then have "\<lfloor>(of_nat m :: rat) * (1 / 2 ^ nat (- e))\<rfloor> = int (m div 2 ^ nat (- e))"
    by (simp only: floor_divide_of_nat_eq)
  with False show ?thesis by (simp add: pow2_def)
qed

lemma pow2_pos: "0 < pow2 e"
  by (simp add: pow2_def)

lemma trunc_to_zero_minus: "0 \<le> q \<Longrightarrow> trunc_to_zero (- q) = - \<lfloor>q\<rfloor>"
  by (cases "q = 0") (simp_all add: trunc_to_zero_def ceiling_minus)

lemma trunc_to_zero_f64_value:
  assumes "f64_decode x = Finite neg m e"
  shows "trunc_to_zero (f64_value x) =
     (let t = (if 0 \<le> e then int m * 2 ^ nat e else int (m div 2 ^ nat (- e)))
      in if f64_neg x then - t else t)"
proof -
  have abs: "f64_abs x = of_nat m * pow2 e"
    by (simp add: f64_abs_def assms)
  have nonneg: "0 \<le> f64_abs x"
    using pow2_pos [of e] by (simp add: abs)
  have fl: "\<lfloor>f64_abs x\<rfloor> = (if 0 \<le> e then int m * 2 ^ nat e else int (m div 2 ^ nat (- e)))"
    by (simp only: abs floor_scaled)
  show ?thesis
  proof (cases "f64_neg x")
    case True
    with nonneg fl show ?thesis
      by (simp add: f64_value_def trunc_to_zero_minus Let_def)
  next
    case False
    with nonneg fl show ?thesis
      by (simp add: f64_value_def trunc_to_zero_def Let_def)
  qed
qed

text \<open>\<open>int(x)\<close> is the truncation of \<open>x\<close> whenever that fits into an \<open>int\<close>.\<close>

lemma float64_to_int_truncates:
  assumes "f64_finite x" and "fits_int (trunc_to_zero (f64_value x))"
  shows "float64_to_int x = trunc_to_zero (f64_value x)"
proof -
  from assms(1) obtain m e where dec: "f64_decode x = Finite (f64_neg x) m e"
    using f64_decode_finite by blast
  define t where "t = (if 0 \<le> e then int m * 2 ^ nat e else int (m div 2 ^ nat (- e)))"
  have tr: "trunc_to_zero (f64_value x) = (if f64_neg x then - t else t)"
    using trunc_to_zero_f64_value [OF dec] by (simp add: t_def Let_def)
  have "float64_to_int x =
      (let v = (if f64_neg x then - t else t)
       in if int_min \<le> v \<and> v < 2 ^ 63 then v else int_min)"
    by (simp only: float64_to_int_def dec f64_class.case t_def Let_def)
  with assms(2) show ?thesis
    by (simp add: tr fits_int_def Let_def)
qed

subsection \<open>Reading the formatted number back\<close>

lemma digit_cases:
  assumes "d < (10 :: nat)"
  obtains "d = 0" | "d = 1" | "d = 2" | "d = 3" | "d = 4" | "d = 5" | "d = 6"
    | "d = 7" | "d = 8" | "d = 9"
proof (cases "d < 5")
  case True
  then have "d = 0 \<or> d = 1 \<or> d = 2 \<or> d = 3 \<or> d = 4" by arith
  with that show ?thesis by blast
next
  case False
  with assms have "d = 5 \<or> d = 6 \<or> d = 7 \<or> d = 8 \<or> d = 9" by arith
  with that show ?thesis by blast
qed

lemma digit_value_digit_char: "d < 10 \<Longrightarrow> digit_value (digit_char d) = d"
  by (erule digit_cases) (simp_all add: digit_value_def digit_char_def)

lemma digit_char_not_zero: "0 < d \<Longrightarrow> d < 10 \<Longrightarrow> digit_char d \<noteq> CHR ''0''"
proof -
  assume "0 < d" "d < 10"
  then consider "d = 1" | "d = 2" | "d = 3" | "d = 4" | "d = 5" | "d = 6"
    | "d = 7" | "d = 8" | "d = 9" by linarith
  then show ?thesis
    by cases (simp_all add: digit_char_def)
qed

lemma read_int_digits:
  "foldl (\<lambda>a c. 10 * a + digit_value c) 0 (int_digits n acc) =
   foldl (\<lambda>a c. 10 * a + digit_value c) n acc"
proof (induction n acc rule: int_digits.induct)
  case (1 n acc)
  show ?case
  proof (cases "n < 10")
    case True
    then show ?thesis
      by (simp add: int_digits.simps [of n] digit_value_digit_char)
  next
    case False
    with "1.IH" show ?thesis
      by (simp add: int_digits.simps [of n] digit_value_digit_char)
  qed
qed

lemma read_frac_digits:
  "foldl (\<lambda>a c. 10 * a + digit_value c) a (frac_digits p f) = a * 10 ^ p + f mod 10 ^ p"
proof (induction p f arbitrary: a rule: frac_digits.induct)
  case (1 f)
  show ?case by simp
next
  case (2 p f)
  have "f mod (10 * 10 ^ p) = 10 * (f div 10 mod 10 ^ p) + f mod 10"
    by (rule mod_mult2_eq)
  with 2 show ?case
    by (simp add: digit_value_digit_char algebra_simps)
qed

lemma int_digits_hd:
  "0 < n \<Longrightarrow> hd (int_digits n acc) \<noteq> CHR ''0''"
proof (induction n acc rule: int_digits.induct)
  case (1 n acc)
  show ?case
  proof (cases "n < 10")
    case True
    with "1.prems" show ?thesis
      by (simp add: int_digits.simps [of n] digit_char_not_zero)
  next
    case False
    then have "0 < n div 10" by simp
    with "1.IH" False show ?thesis
      by (simp add: int_digits.simps [of n])
  qed
qed

lemma no_leading_zero_int_digits: "no_leading_zero (int_digits n [])"
proof (cases "n = 0")
  case True
  then show ?thesis
    by (simp add: no_leading_zero_def int_digits.simps [of 0])
next
  case False
  then have "hd (int_digits n []) \<noteq> CHR ''0''" by (simp add: int_digits_hd)
  moreover have "int_digits n [] \<noteq> []" by (rule int_digits_nonempty)
  ultimately show ?thesis
    by (cases "int_digits n []") (simp_all add: no_leading_zero_def)
qed

lemma filter_digits: "list_all is_digit s \<Longrightarrow> filter is_digit s = s"
  by (induction s) simp_all

lemma scaled_digits_round:
  "int (scaled_digits p m e) = round_half_even (of_nat m * pow2 e * 10 ^ p)"
proof (cases "0 \<le> e")
  case True
  have "(of_nat m :: rat) * 2 ^ nat e * 10 ^ p = of_int (int (m * 10 ^ p * 2 ^ nat e))"
    by simp
  then have "round_half_even ((of_nat m :: rat) * 2 ^ nat e * 10 ^ p) =
      int (m * 10 ^ p * 2 ^ nat e)"
    unfolding round_half_even_def Let_def by (simp only: floor_of_int) simp
  with True show ?thesis
    by (simp add: scaled_digits_def pow2_def)
next
  case False
  define n where "n = m * 10 ^ p"
  define d where "d = (2 :: nat) ^ nat (- e)"
  have dpos: "0 < d" by (simp add: d_def)
  have q: "(of_nat m :: rat) * pow2 e * 10 ^ p = of_nat n / of_nat d"
    using False by (simp add: pow2_def n_def d_def)
  have fl: "\<lfloor>(of_nat n :: rat) / of_nat d\<rfloor> = int (n div d)"
    by (rule floor_divide_of_nat_eq)
  have "(of_nat n :: rat) = of_nat (n div d * d + n mod d)" by simp
  also have "\<dots> = of_nat (n div d) * of_nat d + of_nat (n mod d)"
    by (simp only: of_nat_add of_nat_mult)
  finally have "(of_nat n :: rat) / of_nat d = of_nat (n div d) + of_nat (n mod d) / of_nat d"
    using dpos by (simp add: field_simps)
  then have frac: "(of_nat n :: rat) / of_nat d - of_int (int (n div d)) =
      of_nat (n mod d) / of_nat d"
    by simp
  have lt: "((of_nat (n mod d) :: rat) / of_nat d < 1 / 2) = (2 * (n mod d) < d)"
  proof -
    have "((of_nat (n mod d) :: rat) / of_nat d < 1 / 2) =
        ((of_nat (2 * (n mod d)) :: rat) < of_nat d)"
      using dpos by (simp add: field_simps)
    then show ?thesis by (simp only: of_nat_less_iff)
  qed
  have gt: "(1 / 2 < (of_nat (n mod d) :: rat) / of_nat d) = (d < 2 * (n mod d))"
  proof -
    have "(1 / 2 < (of_nat (n mod d) :: rat) / of_nat d) =
        ((of_nat d :: rat) < of_nat (2 * (n mod d)))"
      using dpos by (simp add: field_simps)
    then show ?thesis by (simp only: of_nat_less_iff)
  qed
  have "round_half_even ((of_nat n :: rat) / of_nat d) = int (round_half_even_div n d)"
    unfolding round_half_even_def round_half_even_div_def Let_def fl frac lt gt
    by simp
  with False show ?thesis
    by (simp add: scaled_digits_def q n_def d_def)
qed


lemma is_digit_sign_point: "\<not> is_digit CHR ''-''" "\<not> is_digit CHR ''.''"
  by (simp_all add: is_digit_def)

lemma formatted_parts:
  fixes neg :: bool
  assumes "all_digits w" and "list_all is_digit fd" and "length fd = p"
    and s_def: "s = (if neg then ''-'' else []) @ w @ (if 0 < p then CHR ''.'' # fd else [])"
  shows "has_sign s = neg" and "whole_part p s = w" and "filter is_digit s = w @ fd"
proof -
  from assms(1) obtain c t where w: "w = c # t" and c: "is_digit c"
    by (cases w) (simp_all add: all_digits_def)
  from c have "c \<noteq> CHR ''-''" using is_digit_sign_point(1) by auto
  then show "has_sign s = neg"
    by (simp add: s_def has_sign_def w)
  have ds: "drop_sign s = w @ (if 0 < p then CHR ''.'' # fd else [])"
    unfolding s_def using assms(1) by (rule drop_sign_signed)
  show "whole_part p s = w"
  proof (cases "p = 0")
    case True
    then show ?thesis by (simp add: whole_part_def ds)
  next
    case False
    with assms(3) have "length (w @ CHR ''.'' # fd) - p = length w + 1" by simp
    moreover have "take (length w + 1) (w @ CHR ''.'' # fd) = w @ [CHR ''.'']" by simp
    ultimately show ?thesis
      using False by (simp add: whole_part_def ds Let_def)
  qed
  from assms(1) have fw: "filter is_digit w = w"
    by (simp add: all_digits_def filter_digits)
  from assms(2) have ff: "filter is_digit fd = fd" by (rule filter_digits)
  from assms(2,3) have p0: "p = 0 \<Longrightarrow> fd = []" by simp
  show "filter is_digit s = w @ fd"
    using p0 by (cases "p = 0") (simp_all add: s_def fw ff is_digit_sign_point)
qed

lemma Sprintf_f_denotes:
  assumes "f64_finite x"
  shows "denotes p (f64_neg x) (f64_abs x) (Sprintf_f p x)"
proof -
  from assms obtain m e where dec: "f64_decode x = Finite (f64_neg x) m e"
    using f64_decode_finite by blast
  define n where "n = scaled_digits p m e"
  define w where "w = int_digits (n div 10 ^ p) []"
  define fd where "fd = frac_digits p (n mod 10 ^ p)"
  have s: "Sprintf_f p x =
      (if f64_neg x then ''-'' else []) @ w @ (if 0 < p then CHR ''.'' # fd else [])"
    by (simp only: Sprintf_f_def dec f64_class.case Let_def n_def w_def fd_def)
  have w: "all_digits w" by (simp add: w_def all_digits_int_digits)
  have fd: "list_all is_digit fd" "length fd = p"
    by (simp_all add: fd_def frac_digits_are_digits frac_digits_length)
  note parts = formatted_parts [OF w fd s]
  have "read_digits (Sprintf_f p x) = n div 10 ^ p * 10 ^ p + n mod 10 ^ p mod 10 ^ p"
    unfolding read_digits_def parts(3) foldl_append
    by (simp only: w_def fd_def read_int_digits read_frac_digits foldl_Nil)
  then have rd: "read_digits (Sprintf_f p x) = n"
    using div_mult_mod_eq [of n "10 ^ p"] by simp
  have "f64_abs x = of_nat m * pow2 e"
    by (simp add: f64_abs_def dec)
  then have val: "int n = round_half_even (f64_abs x * 10 ^ p)"
    by (simp only: n_def scaled_digits_round)
  from parts(1,2) have "has_sign (Sprintf_f p x) = f64_neg x"
    and "no_leading_zero (whole_part p (Sprintf_f p x))"
    by (simp_all only: w_def no_leading_zero_int_digits)
  with Sprintf_f_finite [OF assms, of p] rd val show ?thesis
    by (simp add: denotes_def)
qed

lemma Sprintf_f_special:
  assumes "\<not> f64_finite x"
  shows "Sprintf_f p x =
     (if f64_is_nan x then ''NaN'' else if f64_neg x then ''-Inf'' else ''+Inf'')"
  using assms by (simp add: f64_finite_def f64_is_nan_def Sprintf_f_def f64_decode_def)

lemma rendered_Sprintf_f: "rendered p x (Some (GoString (Sprintf_f p x)))"
proof (cases "f64_finite x")
  case True
  then show ?thesis by (simp add: rendered_def Sprintf_f_denotes)
next
  case False
  then show ?thesis by (simp add: rendered_def Sprintf_f_special)
qed

lemma float64_to_int_special:
  "\<not> (f64_finite x \<and> fits_int (trunc_to_zero (f64_value x))) \<Longrightarrow> float64_to_int x = int_min"
proof (cases "f64_finite x")
  case False
  then show ?thesis
    by (simp add: f64_finite_def float64_to_int_def f64_decode_def)
next
  case True
  assume "\<not> (f64_finite x \<and> fits_int (trunc_to_zero (f64_value x)))"
  with True have nofit: "\<not> fits_int (trunc_to_zero (f64_value x))" by simp
  from True obtain m e where dec: "f64_decode x = Finite (f64_neg x) m e"
    using f64_decode_finite by blast
  define t where "t = (if 0 \<le> e then int m * 2 ^ nat e else int (m div 2 ^ nat (- e)))"
  have tr: "trunc_to_zero (f64_value x) = (if f64_neg x then - t else t)"
    using trunc_to_zero_f64_value [OF dec] by (simp add: t_def Let_def)
  have "float64_to_int x =
      (let v = (if f64_neg x then - t else t)
       in if int_min \<le> v \<and> v < 2 ^ 63 then v else int_min)"
    by (simp only: float64_to_int_def dec f64_class.case t_def Let_def)
  moreover from nofit have "\<not> (int_min \<le> (if f64_neg x then - t else t) \<and>
      (if f64_neg x then - t else t) < 2 ^ 63)"
    by (simp only: tr fits_int_def simp_thms)
  ultimately show ?thesis
    by (simp only: Let_def if_False)
qed

lemma float64_to_int_converted: "float64_to_int x = converted x"
  using float64_to_int_truncates [of x] float64_to_int_special [of x]
  by (simp add: converted_def)

lemma dom_broadcast_message: "dom (broadcast_message r) = set message_keys"
proof -
  have "dom (broadcast_message r) = set (rev message_keys)"
    unfolding broadcast_message_def message_keys_def
    by (simp only: dom_fun_upd dom_empty option.simps rev.simps append.simps list.set if_False)
  then show ?thesis by (simp only: set_rev)
qed

text \<open>The digits that \<open>Sprintf_f\<close> prints are the scaled magnitude rounded to the nearest
  whole number.\<close>

lemma round_half_even_div_nearest:
  assumes "0 < d"
  shows "\<bar>(of_nat (round_half_even_div n d) :: rat) - of_nat n / of_nat d\<bar> \<le> 1 / 2"
proof -
  define q where "q = n div d"
  define r where "r = n mod d"
  have n: "n = q * d + r" by (simp add: q_def r_def)
  have rd: "r < d" using assms by (simp add: r_def)
  have quot: "(of_nat n :: rat) / of_nat d = of_nat q + of_nat r / of_nat d"
    using assms by (simp add: n field_simps)
  have dpos: "(0 :: rat) < of_nat d" using assms by simp
  consider "2 * r < d" | "d < 2 * r" | "2 * r = d" by linarith
  then show ?thesis
  proof cases
    case 1
    then have "(of_nat (2 * r) :: rat) < of_nat d" by (simp only: of_nat_less_iff)
    then have "(of_nat r :: rat) / of_nat d \<le> 1 / 2" using dpos by (simp add: field_simps)
    moreover have "(0 :: rat) \<le> of_nat r / of_nat d" by simp
    moreover from 1 have "round_half_even_div n d = q"
      by (simp add: round_half_even_div_def q_def r_def Let_def)
    ultimately show ?thesis by (simp add: quot)
  next
    case 2
    then have "(of_nat d :: rat) < of_nat (2 * r)" by (simp only: of_nat_less_iff)
    then have a: "1 / 2 \<le> (of_nat r :: rat) / of_nat d" using dpos by (simp add: field_simps)
    from rd have "(of_nat r :: rat) < of_nat d" by (simp only: of_nat_less_iff)
    then have b: "(of_nat r :: rat) / of_nat d \<le> 1" using dpos by (simp add: field_simps)
    from 2 have "round_half_even_div n d = q + 1"
      by (simp add: round_half_even_div_def q_def r_def Let_def)
    with a b show ?thesis by (simp add: quot)
  next
    case 3
    then have "(of_nat (2 * r) :: rat) = of_nat d" by (simp only:)
    then have half: "(of_nat r :: rat) / of_nat d = 1 / 2" using dpos by (simp add: field_simps)
    from 3 have "round_half_even_div n d = q \<or> round_half_even_div n d = q + 1"
      by (simp add: round_half_even_div_def q_def r_def Let_def)
    then show ?thesis by (auto simp: quot half)
  qed
qed

lemma scaled_digits_nearest:
  "\<bar>(of_nat (scaled_digits p m e) :: rat) - of_nat m * pow2 e * 10 ^ p\<bar> \<le> 1 / 2"
proof (cases "0 \<le> e")
  case True
  then show ?thesis by (simp add: scaled_digits_def pow2_def)
next
  case False
  have "\<bar>(of_nat (round_half_even_div (m * 10 ^ p) (2 ^ nat (- e))) :: rat)
          - of_nat (m * 10 ^ p) / of_nat (2 ^ nat (- e))\<bar> \<le> 1 / 2"
    by (rule round_half_even_div_nearest) simp
  with False show ?thesis by (simp add: scaled_digits_def pow2_def)
qed

lemma example_heading:
  "f64_finite (Heading example_report)"
  "trunc_to_zero (f64_value (Heading example_report)) = 183"
proof -
  show "f64_finite (Heading example_report)"
    by (simp add: example_report_def f64_finite_def f64_exp_def)
  have "f64_decode (Heading example_report) = Finite False 6463369152718438 (- 45)"
    by (simp add: example_report_def f64_decode_def f64_exp_def f64_mant_def f64_neg_def)
  from trunc_to_zero_f64_value [OF this]
  show "trunc_to_zero (f64_value (Heading example_report)) = 183"
    by (simp add: example_report_def f64_neg_def)
qed

subsection \<open>Broadcasts of two runs\<close>





section \<open>The claims\<close>

text \<open>
  Claim C1. For the record of the example scenario (latitude 47.449, longitude -122.309,
  altitude 1000.4, heading 183.7, airspeed 120.2, vertical speed -50.0, flaps 0.0,
  trim 2.3, rudder trim 0.0), the cycle that receives it hands exactly one message to
  the broadcast operation: latitude and longitude as the record has them (the doubles
  nearest to 47.449 and -122.309), altitude
  "1000", heading 183, airspeed "120", vertical speed "-50", flaps "0", trim "2.3" and
  rudder trim "0.0".
\<close>

theorem example_scenario:
  "broadcasts (fst (acquisition_iteration sdk_env initial_vars (received 9 0 example_report))) =
     [Map.empty
       (''latitude'' \<mapsto> Float64 0x4047B978D4FDF3B6,
        ''longitude'' \<mapsto> Float64 0xC05E93C6A7EF9DB2,
        ''altitude'' \<mapsto> GoString ''1000'',
        ''heading'' \<mapsto> GoInt 183,
        ''airspeed'' \<mapsto> GoString ''120'',
        ''vertical_speed'' \<mapsto> GoString ''-50'',
        ''flaps'' \<mapsto> GoString ''0'',
        ''trim'' \<mapsto> GoString ''2.3'',
        ''rudder_trim'' \<mapsto> GoString ''0.0'')]"
  by (simp add: acquisition_iteration_def handle_recv_def RequestData_def received_def
      sdk_env_def DefineMap_at_def broadcast_message_def example_report_def
      Sprintf_f_zero f64_eval)

text \<open>
  Claim C2, as the specification words it: for every decoded record the message has the
  nine keys, latitude and longitude raw, altitude, airspeed, vertical speed and flaps as
  strings without decimals, trim and rudder trim as strings with exactly one decimal,
  and the heading truncated. This fails for a record whose trim is NaN: the trim is
  rendered as "NaN", which has no decimal.
\<close>

theorem message_format_counterexample:
  "\<not> formatted_as_specified nan_trim_report (broadcast_message nan_trim_report)"
proof -
  have "broadcast_message nan_trim_report ''trim'' = Some (GoString ''NaN'')"
    by (simp add: broadcast_message_def nan_trim_report_def Sprintf_f_NaN)
  moreover have "\<not> decimal_places 1 ''NaN''"
    by (simp add: decimal_places_def is_digit_def)
  ultimately show ?thesis
    by (simp add: formatted_as_specified_def)
qed

text \<open>
  Claim C2, amended. For every decoded record the message has the nine keys, with
  latitude and longitude passed through raw. Each of altitude, airspeed, vertical speed
  and flaps that is finite is a string without decimals, and each of trim and rudder
  trim that is finite a string with exactly one decimal: the string carries the field's
  sign and spells the field's magnitude rounded to that many decimals, a tie going to
  the even digit. A field that is NaN is the string "NaN", a positive infinity "+Inf", a
  negative infinity "-Inf". The heading is the field truncated towards zero when it is
  finite and the truncation fits into a 64-bit int, and the smallest 64-bit int
  otherwise.
\<close>

theorem message_format:
  "dom (broadcast_message r) = set message_keys \<and>
   broadcast_message r ''latitude'' = Some (Float64 (Latitude r)) \<and>
   broadcast_message r ''longitude'' = Some (Float64 (Longitude r)) \<and>
   rendered 0 (Altitude r) (broadcast_message r ''altitude'') \<and>
   rendered 0 (Airspeed r) (broadcast_message r ''airspeed'') \<and>
   rendered 0 (VerticalSpeed r) (broadcast_message r ''vertical_speed'') \<and>
   rendered 0 (Flaps r) (broadcast_message r ''flaps'') \<and>
   rendered 1 (Trim r) (broadcast_message r ''trim'') \<and>
   rendered 1 (RudderTrim r) (broadcast_message r ''rudder_trim'') \<and>
   broadcast_message r ''heading'' = Some (GoInt (converted (Heading r)))"
proof -
  have heading: "broadcast_message r ''heading'' = Some (GoInt (float64_to_int (Heading r)))"
    by (simp add: broadcast_message_def)
  have strings:
    "broadcast_message r ''altitude'' = Some (GoString (Sprintf_f 0 (Altitude r)))"
    "broadcast_message r ''airspeed'' = Some (GoString (Sprintf_f 0 (Airspeed r)))"
    "broadcast_message r ''vertical_speed'' = Some (GoString (Sprintf_f 0 (VerticalSpeed r)))"
    "broadcast_message r ''flaps'' = Some (GoString (Sprintf_f 0 (Flaps r)))"
    "broadcast_message r ''trim'' = Some (GoString (Sprintf_f 1 (Trim r)))"
    "broadcast_message r ''rudder_trim'' = Some (GoString (Sprintf_f 1 (RudderTrim r)))"
    by (simp_all add: broadcast_message_def)
  have raw:
    "broadcast_message r ''latitude'' = Some (Float64 (Latitude r))"
    "broadcast_message r ''longitude'' = Some (Float64 (Longitude r))"
    by (simp_all add: broadcast_message_def)
  show ?thesis
    unfolding strings heading
    by (simp add: dom_broadcast_message raw rendered_Sprintf_f float64_to_int_converted)
qed

theorem message_format_witness:
  "f64_finite (Trim example_report) \<and> \<not> f64_neg (Trim example_report) \<and>
   string_with (denotes 1 False (f64_abs (Trim example_report)))
     (broadcast_message example_report ''trim'') \<and>
   f64_finite (VerticalSpeed example_report) \<and> f64_neg (VerticalSpeed example_report) \<and>
   string_with (denotes 0 True (f64_abs (VerticalSpeed example_report)))
     (broadcast_message example_report ''vertical_speed'') \<and>
   broadcast_message example_report ''heading'' = Some (GoInt 183) \<and>
   \<not> f64_finite (Trim nan_trim_report) \<and> f64_is_nan (Trim nan_trim_report) \<and>
   broadcast_message nan_trim_report ''trim'' = Some (GoString ''NaN'')"
proof -
  have fin: "f64_finite (Trim example_report)" "\<not> f64_neg (Trim example_report)"
    "f64_finite (VerticalSpeed example_report)" "f64_neg (VerticalSpeed example_report)"
    by (simp_all add: example_report_def f64_finite_def f64_exp_def f64_neg_def)
  have nan: "\<not> f64_finite (Trim nan_trim_report)" "f64_is_nan (Trim nan_trim_report)"
    by (simp_all add: nan_trim_report_def f64_finite_def f64_is_nan_def f64_exp_def
        f64_mant_def)
  have head: "converted (Heading example_report) = 183"
    by (simp add: converted_def example_heading fits_int_def int_min_def)
  from message_format [of example_report] message_format [of nan_trim_report]
  show ?thesis
    by (simp add: rendered_def fin nan head)
qed

text \<open>
  Claim C3. When the poll returns a negative result: if the result, read as a uint32, is
  \<open>E_FAIL\<close>, the loop goes straight to its next poll, with no log line and no pause in
  between; for every other negative result the loop panics with the error, which ends
  the process with status 2, and takes no further answer from the source.
\<close>

theorem negative_dispatch_result:
  assumes "r1 d < 0"
  shows "acquisition_loop e vars (d # ds) =
     (if (word_of_int (r1 d) :: DWORD) = E_FAIL e
      then (case acquisition_loop e vars ds of
              (effs, vars', out) \<Rightarrow> (GetNextDispatch # effs, vars', out))
      else ([GetNextDispatch], vars, Panicked (GetNextDispatchError (r1 d) (dispatch_err d))))
    \<and> exit_status (snd (snd (acquisition_iteration e vars d))) =
        (if (word_of_int (r1 d) :: DWORD) = E_FAIL e then None else Some 2)
    \<and> reported_error (snd (snd (acquisition_iteration e vars d))) =
        (if (word_of_int (r1 d) :: DWORD) = E_FAIL e then None
         else Some (GetNextDispatchError (r1 d) (dispatch_err d)))"
  using assms by (simp add: acquisition_iteration_def split: prod.split)

theorem negative_dispatch_result_witness:
  "r1 (failed (- 2147467259)) < 0 \<and> r1 (failed (- 1)) < 0 \<and>
   acquisition_loop sdk_env initial_vars [failed (- 2147467259), failed (- 2147467259)] =
     ([GetNextDispatch, GetNextDispatch], initial_vars, Running) \<and>
   acquisition_loop sdk_env initial_vars [failed (- 1), received 9 0 example_report] =
     ([GetNextDispatch], initial_vars, Panicked (GetNextDispatchError (- 1) (Some ''failed'')))"
  using negative_dispatch_result [of "failed (- 2147467259)" sdk_env initial_vars
      "[failed (- 2147467259)]"]
    negative_dispatch_result [of "failed (- 1)" sdk_env initial_vars
      "[received 9 0 example_report]"]
  by (simp add: failed_def sdk_env_def acquisition_iteration_def)

text \<open>
  Claim C4, as the specification words it: a response of an unrecognized kind does not
  end the loop, emits no broadcast, and is followed by the loop's next telemetry data
  request. The last part fails: after a response of kind 99 and one more poll, the loop
  is running and has broadcast nothing, but it has issued no data request either.
\<close>

theorem unknown_kind_counterexample:
  "\<not> (snd (snd (acquisition_loop sdk_env initial_vars
               [received 99 0 example_report, failed (- 2147467259)])) = Running \<and>
      \<not> list_ex is_broadcast (fst (acquisition_loop sdk_env initial_vars
               [received 99 0 example_report, failed (- 2147467259)])) \<and>
      list_ex is_request (fst (acquisition_loop sdk_env initial_vars
               [received 99 0 example_report, failed (- 2147467259)])))"
  by (simp add: acquisition_iteration_def handle_recv_def received_def failed_def sdk_env_def)

text \<open>
  Claim C4, amended. A response whose kind is none of exception, open, event and
  object-data does not end the loop and emits no broadcast: the cycle prints the unknown
  kind, pauses for 100 ms and the loop polls again. The cycle issues no telemetry data
  request of its own; the state is unchanged.
\<close>

theorem unknown_kind_cycle:
  assumes "ppData d = Some buf" and "0 \<le> r1 d"
    and "ID buf \<noteq> RECV_ID_EXCEPTION e" and "ID buf \<noteq> RECV_ID_OPEN e"
    and "ID buf \<noteq> RECV_ID_EVENT e" and "ID buf \<noteq> RECV_ID_SIMOBJECT_DATA_BYTYPE e"
  shows "acquisition_loop e vars (d # ds) =
     (case acquisition_loop e vars ds of
        (effs, vars', out) \<Rightarrow>
          ([GetNextDispatch, Print (LogUnknownID (ID buf)), Sleep (100 * Millisecond)] @ effs,
           vars', out))"
  using assms
  by (simp add: acquisition_iteration_def handle_recv_def split: prod.split)

theorem unknown_kind_cycle_witness:
  "acquisition_loop sdk_env initial_vars [received 99 0 example_report, failed (- 2147467259)] =
     ([GetNextDispatch, Print (LogUnknownID 99), Sleep (100 * Millisecond), GetNextDispatch],
      initial_vars, Running)"
  using unknown_kind_cycle [of "received 99 0 example_report" _ sdk_env initial_vars
      "[failed (- 2147467259)]"]
  by (simp add: received_def failed_def sdk_env_def acquisition_iteration_def)

text \<open>
  Claim C5, as the specification words it: an object-data response whose request
  identifier is not the one of the Report request is non-fatal, is logged, and emits no
  broadcast. The logging fails: for request identifier 7, with Report registered as 0,
  the cycle prints nothing.
\<close>

theorem mismatched_request_counterexample:
  "\<not> (snd (snd (acquisition_iteration sdk_env initial_vars (received 9 7 example_report))) =
        Running \<and>
      list_ex is_print
        (fst (acquisition_iteration sdk_env initial_vars (received 9 7 example_report))) \<and>
      \<not> list_ex is_broadcast
        (fst (acquisition_iteration sdk_env initial_vars (received 9 7 example_report))))"
  by (simp add: acquisition_iteration_def handle_recv_def received_def sdk_env_def
      DefineMap_at_def)

text \<open>
  Claim C5, amended. An object-data response whose request identifier is not the one of
  the Report request is non-fatal and is passed over in silence: the cycle prints
  nothing, emits no broadcast, issues no request and leaves the state as it is; it
  pauses for 100 ms and the loop goes on to its next poll.
\<close>

theorem mismatched_request_cycle:
  assumes "ppData d = Some buf" and "0 \<le> r1 d" and "distinct_recv_ids e"
    and "ID buf = RECV_ID_SIMOBJECT_DATA_BYTYPE e"
    and "RequestID buf \<noteq> DefineMap_at e ''Report''"
  shows "acquisition_loop e vars (d # ds) =
     (case acquisition_loop e vars ds of
        (effs, vars', out) \<Rightarrow>
          ([GetNextDispatch, Sleep (100 * Millisecond)] @ effs, vars', out))"
  using assms
  by (auto simp: acquisition_iteration_def handle_recv_def distinct_recv_ids_def
      split: prod.split)

theorem mismatched_request_cycle_witness:
  "distinct_recv_ids sdk_env \<and>
   acquisition_loop sdk_env initial_vars [received 9 7 example_report, failed (- 2147467259)] =
     ([GetNextDispatch, Sleep (100 * Millisecond), GetNextDispatch], initial_vars, Running)"
  using mismatched_request_cycle [of "received 9 7 example_report" _ sdk_env initial_vars
      "[failed (- 2147467259)]"]
  by (simp add: received_def failed_def sdk_env_def acquisition_iteration_def
      distinct_recv_ids_def DefineMap_at_def)

text \<open>
  Claim C6. On an object-data response with the request identifier of Report, the cycle
  first hands the projected message to the broadcast hub and then issues the new
  telemetry request, with nothing but the optional verbose line before the two; and in
  every run of the loop each data request comes after a broadcast of its own.
\<close>

theorem broadcast_precedes_request:
  assumes "ppData d = Some buf" and "0 \<le> r1 d" and "distinct_recv_ids e"
    and "ID buf = RECV_ID_SIMOBJECT_DATA_BYTYPE e"
    and "RequestID buf = DefineMap_at e ''Report''"
  shows "acquisition_iteration e vars d =
     (GetNextDispatch #
      (if verbose e then [Print (LogReport (as_Report buf))] else []) @
      [Broadcast (broadcast_message (as_Report buf)),
       RequestDataOnSimObjectType (GetDefineID e) (GetDefineID e) 0 (SIMOBJECT_TYPE_USER e),
       Sleep (100 * Millisecond)],
      vars\<lparr>report := as_Report buf\<rparr>, Running)
    \<and> request_after_broadcast False (fst (acquisition_loop e vars (d # ds)))"
proof
  from assms have branch: "handle_recv e vars buf =
      ((if verbose e then [Print (LogReport (as_Report buf))] else []) @
       [Broadcast (broadcast_message (as_Report buf))] @ RequestData e,
       vars\<lparr>report := as_Report buf\<rparr>)"
    by (auto simp: handle_recv_def distinct_recv_ids_def)
  with assms(1,2) show "acquisition_iteration e vars d =
     (GetNextDispatch #
      (if verbose e then [Print (LogReport (as_Report buf))] else []) @
      [Broadcast (broadcast_message (as_Report buf)),
       RequestDataOnSimObjectType (GetDefineID e) (GetDefineID e) 0 (SIMOBJECT_TYPE_USER e),
       Sleep (100 * Millisecond)],
      vars\<lparr>report := as_Report buf\<rparr>, Running)"
    by (simp add: acquisition_iteration_def RequestData_def Let_def)
  show "request_after_broadcast False (fst (acquisition_loop e vars (d # ds)))"
    by (rule loop_request_after_broadcast)
qed

theorem broadcast_precedes_request_witness:
  "distinct_recv_ids sdk_env \<and>
   fst (acquisition_iteration (sdk_env\<lparr>verbose := True\<rparr>) initial_vars
         (received 9 0 zero_report)) =
     [GetNextDispatch, Print (LogReport zero_report), Broadcast (broadcast_message zero_report),
      RequestDataOnSimObjectType 0 0 0 0, Sleep (100 * Millisecond)]"
  using broadcast_precedes_request [of "received 9 0 zero_report" _
      "sdk_env\<lparr>verbose := True\<rparr>" initial_vars "[]"]
  by (simp add: received_def sdk_env_def distinct_recv_ids_def DefineMap_at_def)

text \<open>
  Claim C7. Every cycle that gets a response (a non-negative result and a buffer),
  whatever the kind of the response and whether or not a record was published, ends
  with a pause of 100 ms, its only pause, and the loop polls again after it.
\<close>

theorem pause_after_full_cycle:
  assumes "ppData d = Some buf" and "0 \<le> r1 d"
  shows "fst (acquisition_iteration e vars d) =
           GetNextDispatch # fst (handle_recv e vars buf) @ [Sleep (100 * Millisecond)]
    \<and> \<not> list_ex is_sleep (fst (handle_recv e vars buf))
    \<and> 100 * Millisecond = 100000000
    \<and> acquisition_loop e vars (d # ds) =
        (case acquisition_loop e (snd (handle_recv e vars buf)) ds of
           (effs, vars', out) \<Rightarrow> (fst (acquisition_iteration e vars d) @ effs, vars', out))"
  using assms handle_recv_no_sleep [of e vars buf]
  by (simp add: acquisition_iteration_def Millisecond_def split: prod.split)

theorem pause_after_full_cycle_witness:
  "acquisition_loop sdk_env initial_vars
     [received 1 0 zero_report, received 2 0 zero_report, received 4 0 zero_report,
      received 9 0 zero_report, received 9 7 zero_report, received 99 0 zero_report] =
   ([GetNextDispatch,
     Print (LogException \<lparr>ID = 1, ApplicationName = [], EventID = 0, RequestID = 0,
                           as_Report = zero_report\<rparr>),
     Sleep 100000000,
     GetNextDispatch, Print (LogOpen []), Sleep 100000000,
     GetNextDispatch, Print LogEvent, Print (LogUnknownEvent 0), Sleep 100000000,
     GetNextDispatch, Broadcast (broadcast_message zero_report),
     RequestDataOnSimObjectType 0 0 0 0, Sleep 100000000,
     GetNextDispatch, Sleep 100000000,
     GetNextDispatch, Print (LogUnknownID 99), Sleep 100000000],
    initial_vars\<lparr>report := zero_report\<rparr>, Running)"
  using pause_after_full_cycle [of "received 1 0 zero_report" _ sdk_env initial_vars
      "[received 2 0 zero_report, received 4 0 zero_report,
        received 9 0 zero_report, received 9 7 zero_report, received 99 0 zero_report]"]
  by (simp add: received_def sdk_env_def acquisition_iteration_def handle_recv_def
      RequestData_def DefineMap_at_def Millisecond_def)

text \<open>
  Claim C8. On an interrupt or termination signal the coordinator prints its notice and
  closes the telemetry connection; if the close succeeds the process exits with status
  0, and if it fails the process panics with the error, which the runtime reports
  before ending the process with status 2.
\<close>

theorem exit_on_signal:
  "fst (coordinator_iteration vars close_result (ExitSignal sg)) = [Print LogExiting, Close]
   \<and> exit_status (snd (snd (coordinator_iteration vars close_result (ExitSignal sg)))) =
       (case close_result of None \<Rightarrow> Some 0 | Some e \<Rightarrow> Some 2)
   \<and> reported_error (snd (snd (coordinator_iteration vars close_result (ExitSignal sg)))) =
       (case close_result of None \<Rightarrow> None | Some e \<Rightarrow> Some (ErrorValue e))
   \<and> coordinator_loop vars close_result (ExitSignal sg # evs) =
       coordinator_iteration vars close_result (ExitSignal sg)"
  by (simp split: option.split)

theorem exit_on_signal_witness:
  "coordinator_loop initial_vars None [NewConnection 1, ExitSignal Interrupt, NewConnection 2] =
     ([Print LogExiting, Close], initial_vars, Exited 0) \<and>
   coordinator_loop initial_vars (Some ''broken'') [ExitSignal SIGTERM] =
     ([Print LogExiting, Close], initial_vars\<lparr>err := Some ''broken''\<rparr>,
      Panicked (ErrorValue ''broken''))"
  using exit_on_signal [of initial_vars None Interrupt "[NewConnection 2]"]
    exit_on_signal [of initial_vars "Some ''broken''" SIGTERM "[]"]
  by (simp add: initial_vars_def)

text \<open>
  Claim C9. A new-connection event and an inbound client message are drained and
  dropped: consuming one has no effect at all (no broadcast, no telemetry request),
  leaves the state as it is and leaves the process running, so that the coordinator goes
  on with the events that follow.
\<close>

theorem drained_events:
  "coordinator_iteration vars close_result (NewConnection c) = ([], vars, Running)
   \<and> coordinator_iteration vars close_result (ReceiveMessages c m) = ([], vars, Running)
   \<and> coordinator_loop vars close_result (NewConnection c # evs) =
       coordinator_loop vars close_result evs
   \<and> coordinator_loop vars close_result (ReceiveMessages c m # evs) =
       coordinator_loop vars close_result evs"
  by (simp split: prod.split)



end
